theory Spec2Isabelle
  imports Main "HOL-Library.Sublist"
begin

section \<open>Python strings\<close>

text \<open>
  A Python \<open>str\<close> is a sequence of Unicode code points and \<open>len\<close> counts code points,
  so a string is modelled as a list of code points. ASCII literals of the source are
  written with \<open>lit\<close>.
\<close>

type_synonym codepoint = nat
type_synonym pystr = "codepoint list"

definition lit :: "string \<Rightarrow> pystr" where
  "lit s = map of_char s"

text \<open>
  The character data of the interpreter is not part of the repository. It is a parameter
  of the model: \<open>str_lower\<close> is \<open>str.lower\<close>, \<open>is_decimal\<close> is the class \<open>\d\<close> of
  \<open>re\<close>, \<open>is_word\<close> is the class \<open>\w\<close> (its complement is \<open>\W\<close>) and \<open>is_space\<close> is the
  class \<open>\s\<close>, which is also what \<open>str.strip\<close> and \<open>str.split\<close> take for whitespace.
\<close>

record unicode =
  str_lower :: "pystr \<Rightarrow> pystr"
  is_decimal :: "codepoint \<Rightarrow> bool"
  is_word :: "codepoint \<Rightarrow> bool"
  is_space :: "codepoint \<Rightarrow> bool"

section \<open>clean_text\<close>

text \<open>\<open>string.punctuation\<close>, the 32 ASCII punctuation characters.\<close>

definition punctuation :: pystr where
  "punctuation = [33, 34, 35, 36, 37, 38, 39, 40, 41, 42, 43, 44, 45, 46, 47,
                  58, 59, 60, 61, 62, 63, 64, 91, 92, 93, 94, 95, 96, 123, 124, 125, 126]"

text \<open>
  \<open>re.sub(r'\d+', '', text)\<close> deletes every maximal run of decimal digits, that is every
  decimal digit; \<open>text.translate(str.maketrans('', '', string.punctuation))\<close> deletes every
  punctuation character.
\<close>

definition remove_numbers :: "unicode \<Rightarrow> pystr \<Rightarrow> pystr" where
  "remove_numbers U text = filter (\<lambda>c. \<not> is_decimal U c) text"

definition remove_punctuation :: "pystr \<Rightarrow> pystr" where
  "remove_punctuation text = filter (\<lambda>c. c \<notin> set punctuation) text"

text \<open>
  \<open>re.sub(P+, ' ', text)\<close> for a character class \<open>P\<close>: a left-to-right scan that writes one
  space (U+0020) for every maximal run of characters of the class and copies the others.
  The flag says whether the character before was in the class.
\<close>

fun sub_runs :: "(codepoint \<Rightarrow> bool) \<Rightarrow> bool \<Rightarrow> pystr \<Rightarrow> pystr" where
  "sub_runs P in_run [] = []"
| "sub_runs P in_run (c # cs) =
     (if P c then (if in_run then sub_runs P True cs else 32 # sub_runs P True cs)
      else c # sub_runs P False cs)"

definition sub_nonword :: "unicode \<Rightarrow> pystr \<Rightarrow> pystr" where
  "sub_nonword U text = sub_runs (\<lambda>c. \<not> is_word U c) False text"

definition sub_spaces :: "unicode \<Rightarrow> pystr \<Rightarrow> pystr" where
  "sub_spaces U text = sub_runs (is_space U) False text"

text \<open>\<open>str.strip()\<close>: drop the whitespace at both ends.\<close>

definition strip :: "unicode \<Rightarrow> pystr \<Rightarrow> pystr" where
  "strip U text = rev (dropWhile (is_space U) (rev (dropWhile (is_space U) text)))"

text \<open>
  \<open>clean_text\<close>, line by line. \<open>html_text\<close> stands for
  \<open>BeautifulSoup(text, "html.parser").get_text()\<close>, a call into the HTML parser
  on the text cleaned so far.
\<close>

definition clean_text :: "unicode \<Rightarrow> (pystr \<Rightarrow> pystr) \<Rightarrow> pystr \<Rightarrow> pystr" where
  "clean_text U html_text text =
     (let text = str_lower U text;
          text = remove_numbers U text;
          text = remove_punctuation text;
          text = sub_nonword U text;
          text = sub_spaces U text;
          text = html_text text
      in strip U text)"

section \<open>preprocess_text\<close>

text \<open>
  The NLTK entry points the pipeline calls: \<open>word_tokenize\<close>, the list
  \<open>stopwords.words('english')\<close>, \<open>PorterStemmer().stem\<close> and
  \<open>WordNetLemmatizer().lemmatize\<close>.
\<close>

record nltk =
  word_tokenize :: "pystr \<Rightarrow> pystr list"
  stopwords :: "pystr list"
  stem :: "pystr \<Rightarrow> pystr"
  lemmatize :: "pystr \<Rightarrow> pystr"

text \<open>
  The five list comprehensions of \<open>preprocess_text\<close>. The progress bar and the status
  text are drawn on the page and do not enter the returned value.
\<close>

definition preprocess_text ::
  "unicode \<Rightarrow> (pystr \<Rightarrow> pystr) \<Rightarrow> nltk \<Rightarrow> pystr list
     \<Rightarrow> pystr list \<times> pystr list list \<times> pystr list list \<times> pystr list list \<times> pystr list list"
where
  "preprocess_text U html_text N corpus =
     (let cleaned_corpus = map (clean_text U html_text) corpus;
          tokenized_corpus = map (word_tokenize N) cleaned_corpus;
          stop_words = set (stopwords N);
          filtered_corpus =
            map (filter (\<lambda>word. word \<notin> stop_words \<and> length word > 2)) tokenized_corpus;
          stemmed_corpus = map (map (stem N)) filtered_corpus;
          lemmatized_corpus = map (map (lemmatize N)) filtered_corpus
      in (cleaned_corpus, tokenized_corpus, filtered_corpus, stemmed_corpus,
          lemmatized_corpus))"

text \<open>
  The exceptions the functions of the repository let out: the \<open>Exception\<close> that
  \<open>scrape_webpage\<close> raises with a message, and the \<open>LookupError\<close> of an NLTK call
  whose data is not installed.
\<close>

datatype error = Exception pystr | LookupError

text \<open>
  The same function with the look-ups of the NLTK data. \<open>download_nltk_data\<close> passes
  over a download that fails, so a package may be missing when the pipeline runs, and an
  NLTK call that needs a missing package raises \<open>LookupError\<close>, which nothing in the
  repository catches. \<open>word_tokenize\<close> needs the tokenizer models,
  \<open>stopwords.words('english')\<close> the stop-word lists and \<open>lemmatize\<close> WordNet; the
  stemmer needs no data. A call is made only where the comprehension reaches it:
  \<open>word_tokenize\<close> once per document, \<open>lemmatize\<close> once per filtered token.
\<close>

record nltk_data =
  punkt :: "(pystr \<Rightarrow> pystr list) option"
  stopwords_corpus :: "pystr list option"
  porter :: "pystr \<Rightarrow> pystr"
  wordnet :: "(pystr \<Rightarrow> pystr) option"

definition preprocess_text_lookup ::
  "unicode \<Rightarrow> (pystr \<Rightarrow> pystr) \<Rightarrow> nltk_data \<Rightarrow> pystr list
     \<Rightarrow> error + pystr list \<times> pystr list list \<times> pystr list list \<times> pystr list list
               \<times> pystr list list"
where
  "preprocess_text_lookup U html_text D corpus =
     (let cleaned_corpus = map (clean_text U html_text) corpus in
      case (case punkt D of
              Some tokenizer \<Rightarrow> Inr (map tokenizer cleaned_corpus)
            | None \<Rightarrow> if cleaned_corpus = [] then Inr [] else Inl LookupError) of
        Inl e \<Rightarrow> Inl e
      | Inr tokenized_corpus \<Rightarrow>
          (case stopwords_corpus D of
             None \<Rightarrow> Inl LookupError
           | Some words \<Rightarrow>
               (let stop_words = set words;
                    filtered_corpus =
                      map (filter (\<lambda>word. word \<notin> stop_words \<and> length word > 2))
                        tokenized_corpus;
                    stemmed_corpus = map (map (porter D)) filtered_corpus
                in case (case wordnet D of
                           Some lemmatizer \<Rightarrow> Inr (map (map lemmatizer) filtered_corpus)
                         | None \<Rightarrow> if concat filtered_corpus = [] then Inr filtered_corpus
                                   else Inl LookupError) of
                     Inl e \<Rightarrow> Inl e
                   | Inr lemmatized_corpus \<Rightarrow>
                       Inr (cleaned_corpus, tokenized_corpus, filtered_corpus, stemmed_corpus,
                            lemmatized_corpus))))"

section \<open>scrape_webpage\<close>

subsection \<open>String operations\<close>

text \<open>
  \<open>str.split()\<close>: the maximal runs of characters that are not whitespace. The second
  argument is the word read so far.
\<close>

fun split_runs :: "(codepoint \<Rightarrow> bool) \<Rightarrow> pystr \<Rightarrow> pystr \<Rightarrow> pystr list" where
  "split_runs P w [] = (if w = [] then [] else [w])"
| "split_runs P w (c # cs) =
     (if P c then (if w = [] then split_runs P [] cs else w # split_runs P [] cs)
      else split_runs P (w @ [c]) cs)"

definition split :: "unicode \<Rightarrow> pystr \<Rightarrow> pystr list" where
  "split U text = split_runs (is_space U) [] text"

text \<open>\<open>text.startswith(p)\<close>, \<open>word in text\<close> and \<open>sep.join(content)\<close>.\<close>

definition startswith :: "pystr \<Rightarrow> pystr \<Rightarrow> bool" where
  "startswith text p = (take (length p) text = p)"

fun contains :: "pystr \<Rightarrow> pystr \<Rightarrow> bool" where
  "contains word [] = (word = [])"
| "contains word (c # cs) = (startswith (c # cs) word \<or> contains word cs)"

fun join :: "pystr \<Rightarrow> pystr list \<Rightarrow> pystr" where
  "join sep [] = []"
| "join sep [x] = x"
| "join sep (x # y # ys) = x @ sep @ join sep (y # ys)"

subsection \<open>The parsed page\<close>

text \<open>
  The tree \<open>BeautifulSoup\<close> builds: a tag has a name, attributes and contents; the
  other nodes are the strings of the page. \<open>soup\<close> is the list of the top-level nodes.
\<close>

datatype node = Tag pystr "(pystr \<times> pystr) list" "node list" | NavigableString pystr

fun name :: "node \<Rightarrow> pystr" where
  "name (Tag n attrs contents) = n"
| "name (NavigableString s) = []"

fun attrs :: "node \<Rightarrow> (pystr \<times> pystr) list" where
  "attrs (Tag n a contents) = a"
| "attrs (NavigableString s) = []"

fun contents :: "node \<Rightarrow> node list" where
  "contents (Tag n a cs) = cs"
| "contents (NavigableString s) = []"

text \<open>\<open>tag.get_text()\<close>: the strings below the tag, in document order, concatenated.\<close>

fun get_text :: "node \<Rightarrow> pystr" where
  "get_text (NavigableString s) = s"
| "get_text (Tag n a cs) = concat (map get_text cs)"

text \<open>
  The tags of a subtree in document order, the root first; \<open>descendants\<close> are the tags
  that \<open>find\<close> and \<open>find_all\<close> visit below a list of nodes.
\<close>

fun tags :: "node \<Rightarrow> node list" where
  "tags (NavigableString s) = []"
| "tags (Tag n a cs) = Tag n a cs # concat (map tags cs)"

definition descendants :: "node list \<Rightarrow> node list" where
  "descendants nodes = concat (map tags nodes)"

definition find_all :: "pystr list \<Rightarrow> node list \<Rightarrow> node list" where
  "find_all names nodes = filter (\<lambda>t. name t \<in> set names) (descendants nodes)"

definition find_tag :: "pystr \<Rightarrow> node list \<Rightarrow> node option" where
  "find_tag n nodes = List.find (\<lambda>t. name t = n) (descendants nodes)"

text \<open>
  \<open>for script in soup([...]): script.decompose()\<close> removes every tag with one of the
  names, with all that is below it.
\<close>

fun decompose :: "pystr list \<Rightarrow> node \<Rightarrow> node list" where
  "decompose names (NavigableString s) = [NavigableString s]"
| "decompose names (Tag n a cs) =
     (if n \<in> set names then [] else [Tag n a (concat (map (decompose names) cs))])"

subsection \<open>The function\<close>

text \<open>
  What the function takes from outside. \<open>urlparse\<close> gives the scheme and the netloc
  of a URL, or raises \<open>ValueError\<close> (\<open>Inl\<close> carries its text). \<open>fetch\<close> is the request
  with the parse of the page (\<open>requests.get\<close>, \<open>raise_for_status\<close> and
  \<open>BeautifulSoup(response.content, "html.parser")\<close>): it gives the parsed page or
  raises, a \<open>RequestException\<close> or another exception, each with its text.
  \<open>class_search\<close> is the search of the regular expression \<open>content|main|article\<close>,
  ignoring case, in a \<open>class\<close> attribute.
\<close>

datatype raised = RequestException pystr | OtherException pystr

record web =
  urlparse :: "pystr \<Rightarrow> pystr + pystr \<times> pystr"
  fetch :: "pystr \<Rightarrow> raised + node list"
  class_search :: "pystr \<Rightarrow> bool"

definition find_div_class :: "web \<Rightarrow> node list \<Rightarrow> node option" where
  "find_div_class W nodes =
     List.find (\<lambda>t. name t = lit ''div'' \<and>
                    (case map_of (attrs t) (lit ''class'') of
                       None \<Rightarrow> False | Some v \<Rightarrow> class_search W v))
       (descendants nodes)"

text \<open>\<open>soup.find('main') or soup.find('article') or ... or soup.find('body')\<close>.\<close>

definition main_content :: "web \<Rightarrow> node list \<Rightarrow> node option" where
  "main_content W soup =
     (case find_tag (lit ''main'') soup of Some t \<Rightarrow> Some t | None \<Rightarrow>
      (case find_tag (lit ''article'') soup of Some t \<Rightarrow> Some t | None \<Rightarrow>
       (case find_div_class W soup of Some t \<Rightarrow> Some t | None \<Rightarrow>
        find_tag (lit ''body'') soup)))"

text \<open>
  The body of the loop over the headings, paragraphs and divisions: what one tag
  appends to \<open>content\<close>, if anything. In the heading branch the name is one of
  \<open>h1\<close>, ..., \<open>h4\<close>, and \<open>int(tag.name[1])\<close> is its digit.
\<close>

definition block :: "unicode \<Rightarrow> node \<Rightarrow> pystr option" where
  "block U tag =
     (let text = strip U (get_text tag) in
      if length text < 10 then None
      else if \<exists>word \<in> set [lit ''cookie'', lit ''advertisement'', lit ''subscribe'',
                               lit ''newsletter'']. contains word (str_lower U text)
      then None
      else if name tag \<in> set [lit ''h1'', lit ''h2'', lit ''h3'', lit ''h4''] then
        (if text \<noteq> [] \<and>
            \<not> (\<exists>p \<in> set [lit ''menu'', lit ''navigation'', lit ''footer''].
                   startswith (str_lower U text) p)
         then Some (replicate (name tag ! 1 - 48) 35 @ lit '' '' @ text)
         else None)
      else if name tag \<in> set [lit ''p'', lit ''div''] then
        (if text \<noteq> [] \<and> length (split U text) > 5 then Some text else None)
      else None)"

fun blocks :: "unicode \<Rightarrow> node list \<Rightarrow> pystr list" where
  "blocks U [] = []"
| "blocks U (tag # rest) =
     (case block U tag of None \<Rightarrow> blocks U rest | Some b \<Rightarrow> b # blocks U rest)"

text \<open>The page after the first loop, which removes the scripts, styles and page furniture.\<close>

definition decomposed :: "node list \<Rightarrow> node list" where
  "decomposed page =
     concat (map (decompose [lit ''script'', lit ''style'', lit ''nav'', lit ''footer'',
                             lit ''header'']) page)"

text \<open>The list \<open>content\<close> when the second loop is over.\<close>

definition content :: "unicode \<Rightarrow> web \<Rightarrow> pystr \<Rightarrow> node list \<Rightarrow> pystr list" where
  "content U W netloc page =
     (let soup = decomposed page;
          title_line =
            (case find_tag (lit ''title'') soup of
               Some title \<Rightarrow> lit ''# '' @ strip U (get_text title)
             | None \<Rightarrow> lit ''# Scraped Content from '' @ netloc)
      in title_line #
         (case main_content W soup of
            Some m \<Rightarrow>
              blocks U (find_all [lit ''h1'', lit ''h2'', lit ''h3'', lit ''h4'', lit ''p'',
                                  lit ''div''] (contents m))
          | None \<Rightarrow> []))"

definition no_content :: pystr where
  "no_content = lit ''No content could be extracted from this webpage.''"

text \<open>
  The function with its two handlers: a \<open>RequestException\<close> is raised again as
  \<open>Failed to fetch the webpage\<close>, any other exception of the \<open>try\<close> block as
  \<open>Error processing the webpage\<close>. The netloc is read from the URL as it was given,
  before \<open>https://\<close> is put in front of a URL without scheme.
\<close>

definition scrape_webpage :: "unicode \<Rightarrow> web \<Rightarrow> pystr \<Rightarrow> error + pystr" where
  "scrape_webpage U W url =
     (case urlparse W url of
        Inl e \<Rightarrow> Inl (Exception (lit ''Error processing the webpage: '' @ e))
      | Inr (scheme, netloc) \<Rightarrow>
          (let url = (if scheme = [] then lit ''https://'' @ url else url)
           in case fetch W url of
                Inl (RequestException e) \<Rightarrow>
                  Inl (Exception (lit ''Failed to fetch the webpage: '' @ e))
              | Inl (OtherException e) \<Rightarrow>
                  Inl (Exception (lit ''Error processing the webpage: '' @ e))
              | Inr page \<Rightarrow>
                  (let content = content U W netloc page
                   in Inr (if content \<noteq> [] then join [10, 10] content else no_content))))"

section \<open>Properties of cleaned text\<close>

text \<open>The text that \<open>clean_text\<close> hands to the HTML parser.\<close>

definition scrubbed :: "unicode \<Rightarrow> pystr \<Rightarrow> pystr" where
  "scrubbed U text =
     sub_spaces U (sub_nonword U (remove_punctuation (remove_numbers U (str_lower U text))))"

text \<open>Two neighbouring characters of a class; two neighbouring spaces (U+0020).\<close>

fun adjacent :: "(codepoint \<Rightarrow> bool) \<Rightarrow> pystr \<Rightarrow> bool" where
  "adjacent P (a # b # cs) = ((P a \<and> P b) \<or> adjacent P (b # cs))"
| "adjacent P [a] = False"
| "adjacent P [] = False"

definition double_space :: "pystr \<Rightarrow> bool" where
  "double_space text = adjacent (\<lambda>c. c = 32) text"

text \<open>
  What is known of the HTML parser: a text of word characters that are neither digits nor
  ASCII punctuation (so without \<open><\<close> and \<open>&\<close>), separated by single spaces, is one string
  of the parse, and \<open>get_text\<close> returns it as it is.
\<close>

definition words_and_spaces :: "unicode \<Rightarrow> pystr \<Rightarrow> bool" where
  "words_and_spaces U text =
     ((\<forall>c \<in> set text. c = 32 \<or> (is_word U c \<and> \<not> is_decimal U c \<and> c \<notin> set punctuation))
      \<and> \<not> double_space text)"

definition text_only :: "unicode \<Rightarrow> (pystr \<Rightarrow> pystr) \<Rightarrow> bool" where
  "text_only U html_text = (\<forall>text. words_and_spaces U text \<longrightarrow> html_text text = text)"

text \<open>
  What is known of the character data: the space U+0020 is whitespace and not a decimal
  digit, and \<open>lower\<close> changes no text made of spaces and of characters that occur in
  lower-cased text.
\<close>

definition space_char :: "unicode \<Rightarrow> bool" where
  "space_char U = (is_space U 32 \<and> \<not> is_decimal U 32)"

definition lower_stable :: "unicode \<Rightarrow> bool" where
  "lower_stable U =
     (\<forall>s t. set t \<subseteq> set (str_lower U s) \<union> {32} \<longrightarrow> str_lower U t = t)"

section \<open>Sample library data\<close>

text \<open>
  Concrete character data, for evaluating the model on concrete documents: the values
  Python 3 gives for the code points below U+0180 (Basic Latin, Latin-1 Supplement,
  Latin Extended-A). \<open>lower_cp\<close> is the lower-case mapping of one code point; U+0130
  is the one code point of the range that has two code points as its lower case,
  \<open>i\<close> followed by U+0307. The code points from U+0180 on are not tabulated and are left
  as symbols: unchanged by \<open>lower\<close>, in none of the three classes, which is right for
  U+0307.
\<close>

definition lower_cp :: "codepoint \<Rightarrow> pystr" where
  "lower_cp c =
     (if (65 \<le> c \<and> c \<le> 90) \<or> (192 \<le> c \<and> c \<le> 222 \<and> c \<noteq> 215) then [c + 32]
      else if c = 304 then [105, 775]
      else if c = 376 then [255]
      else if ((256 \<le> c \<and> c \<le> 303) \<or> (306 \<le> c \<and> c \<le> 311) \<or> (330 \<le> c \<and> c \<le> 375))
              \<and> even c then [c + 1]
      else if ((313 \<le> c \<and> c \<le> 328) \<or> (377 \<le> c \<and> c \<le> 382)) \<and> odd c then [c + 1]
      else [c])"

definition latin_decimal :: "codepoint \<Rightarrow> bool" where
  "latin_decimal c = (48 \<le> c \<and> c \<le> 57)"

definition latin_word :: "codepoint \<Rightarrow> bool" where
  "latin_word c =
     ((48 \<le> c \<and> c \<le> 57) \<or> (65 \<le> c \<and> c \<le> 90) \<or> c = 95 \<or> (97 \<le> c \<and> c \<le> 122)
      \<or> c = 170 \<or> c = 178 \<or> c = 179 \<or> c = 181 \<or> c = 185 \<or> c = 186
      \<or> (188 \<le> c \<and> c \<le> 190) \<or> (192 \<le> c \<and> c \<le> 214) \<or> (216 \<le> c \<and> c \<le> 246)
      \<or> (248 \<le> c \<and> c \<le> 383))"

definition latin_space :: "codepoint \<Rightarrow> bool" where
  "latin_space c = ((9 \<le> c \<and> c \<le> 13) \<or> (28 \<le> c \<and> c \<le> 32) \<or> c = 133 \<or> c = 160)"

text \<open>\<open>str.isdigit\<close> on the tabulated code points: the decimal digits and three superscripts.\<close>

definition latin_isdigit :: "codepoint \<Rightarrow> bool" where
  "latin_isdigit c = ((48 \<le> c \<and> c \<le> 57) \<or> c = 178 \<or> c = 179 \<or> c = 185)"

definition latin :: unicode where
  "latin = \<lparr> str_lower = (\<lambda>text. concat (map lower_cp text)),
             is_decimal = latin_decimal, is_word = latin_word, is_space = latin_space \<rparr>"

text \<open>
  Sample language data, small enough to evaluate: a tokenizer that splits at whitespace,
  four stop words, and two suffix strippers in the places of the stemmer and the
  lemmatizer.
\<close>

definition drop_suffix :: "pystr \<Rightarrow> pystr \<Rightarrow> pystr" where
  "drop_suffix suf w =
     (if length suf < length w \<and> drop (length w - length suf) w = suf
      then take (length w - length suf) w else w)"

definition sample_nltk :: nltk where
  "sample_nltk = \<lparr> word_tokenize = split latin,
                   stopwords = [lit ''the'', lit ''are'', lit ''and'', lit ''over''],
                   stem = drop_suffix (lit ''ing''),
                   lemmatize = drop_suffix (lit ''s'') \<rparr>"

text \<open>The same data installed, and the same without the stop-word lists.\<close>

definition sample_data :: nltk_data where
  "sample_data = \<lparr> punkt = Some (split latin),
                   stopwords_corpus = Some [lit ''the'', lit ''are'', lit ''and'', lit ''over''],
                   porter = drop_suffix (lit ''ing''),
                   wordnet = Some (drop_suffix (lit ''s'')) \<rparr>"

definition sample_data_no_stopwords :: nltk_data where
  "sample_data_no_stopwords = sample_data \<lparr> stopwords_corpus := None \<rparr>"

definition sample_corpus :: "pystr list" where
  "sample_corpus = [lit ''The dogs are running 12 km!'', lit '''']"

text \<open>
  Sample pages, as the parser builds them, and the answers of the libraries for the URL
  \<open>http://example.com\<close> when the server sends the page: a page whose body holds only a
  \<open>nav\<close> and a \<open>footer\<close>, a page with an empty \<open>title\<close>, and a page with an article.
\<close>

definition nav_footer_page :: "node list" where
  "nav_footer_page =
     [Tag (lit ''html'') []
        [Tag (lit ''body'') []
           [Tag (lit ''nav'') [] [NavigableString (lit ''Home About Contact'')],
            Tag (lit ''footer'') [] [NavigableString (lit ''Copyright 2024 Example Inc'')]]]]"


definition article_page :: "node list" where
  "article_page =
     [Tag (lit ''html'') []
        [Tag (lit ''head'') [] [Tag (lit ''title'') [] [NavigableString (lit '' News '')]],
         Tag (lit ''body'') []
           [Tag (lit ''article'') []
              [Tag (lit ''h1'') [] [NavigableString (lit ''Title of the day'')],
               Tag (lit ''p'') [] [NavigableString (lit ''one two three four five six'')],
               Tag (lit ''p'') [] [NavigableString (lit ''too short to keep'')]]]]]"

definition sample_web :: "node list \<Rightarrow> web" where
  "sample_web page =
     \<lparr> urlparse = (\<lambda>url. Inr (lit ''http'', lit ''example.com'')),
       fetch = (\<lambda>url. Inr page),
       class_search = (\<lambda>v. \<exists>w \<in> set [lit ''content'', lit ''main'', lit ''article''].
                                contains w (str_lower latin v)) \<rparr>"

section \<open>The pipeline\<close>

lemma sample_run:
  "preprocess_text latin (\<lambda>t. t) sample_nltk sample_corpus =
     ([lit ''the dogs are running km'', []],
      [[lit ''the'', lit ''dogs'', lit ''are'', lit ''running'', lit ''km''], []],
      [[lit ''dogs'', lit ''running''], []],
      [[lit ''dogs'', lit ''runn''], []],
      [[lit ''dog'', lit ''running''], []])"
  by code_simp

lemma preprocess_text_parts:
  assumes "preprocess_text U html_text N corpus = (cleaned, tokenized, filtered, stemmed, lemmatized)"
  shows "cleaned = map (clean_text U html_text) corpus"
    and "tokenized = map (word_tokenize N) cleaned"
    and "filtered = map (filter (\<lambda>word. word \<notin> set (stopwords N) \<and> length word > 2)) tokenized"
    and "stemmed = map (map (stem N)) filtered"
    and "lemmatized = map (map (lemmatize N)) filtered"
  using assms by (auto simp add: preprocess_text_def Let_def)

lemma count_list_filter:
  "count_list (filter P xs) w = (if P w then count_list xs w else 0)"
  by (induction xs) auto

text \<open>
  C1: for every corpus the five returned corpora have the length of the corpus, and the
  entry at an index comes from the document at that index: the cleaned entry is the
  cleaned document and the tokenized entry is the tokenization of the cleaned entry.
\<close>

theorem preprocess_text_lengths:
  assumes "preprocess_text U html_text N corpus = (cleaned, tokenized, filtered, stemmed, lemmatized)"
  shows "length cleaned = length corpus \<and> length tokenized = length corpus
       \<and> length filtered = length corpus \<and> length stemmed = length corpus
       \<and> length lemmatized = length corpus
       \<and> (\<forall>i<length corpus. cleaned ! i = clean_text U html_text (corpus ! i)
             \<and> tokenized ! i = word_tokenize N (cleaned ! i))"
  using preprocess_text_parts [OF assms] by simp

theorem preprocess_text_lengths_witness:
  "length [lit ''the dogs are running km'', []] = length sample_corpus
   \<and> length [[lit ''dogs'', lit ''runn''], [] :: pystr list] = length sample_corpus
   \<and> [lit ''the dogs are running km'', []] ! 1 = clean_text latin (\<lambda>t. t) (sample_corpus ! 1)"
proof -
  note run = preprocess_text_lengths [OF sample_run]
  have "1 < length sample_corpus"
    by (simp add: sample_corpus_def)
  with run have "[lit ''the dogs are running km'', []] ! 1
      = clean_text latin (\<lambda>t. t) (sample_corpus ! 1)"
    by blast
  with run show ?thesis
    by blast
qed

text \<open>
  C2: at every index, every token of the filtered entry is a token of the tokenized
  entry, and a token of the tokenized entry is in the filtered entry exactly when it is
  not a stop word and has more than two characters.
\<close>

theorem filtered_tokens:
  assumes "preprocess_text U html_text N corpus = (cleaned, tokenized, filtered, stemmed, lemmatized)"
    and "i < length corpus"
  shows "set (filtered ! i) \<subseteq> set (tokenized ! i)
       \<and> (\<forall>w \<in> set (tokenized ! i).
             w \<in> set (filtered ! i) \<longleftrightarrow> w \<notin> set (stopwords N) \<and> length w > 2)"
  using preprocess_text_parts [OF assms(1)] assms(2) by auto

theorem filtered_tokens_witness:
  "set [lit ''dogs'', lit ''running'']
     \<subseteq> set [lit ''the'', lit ''dogs'', lit ''are'', lit ''running'', lit ''km'']
   \<and> (lit ''km'' \<in> set [lit ''dogs'', lit ''running'']
        \<longleftrightarrow> lit ''km'' \<notin> set (stopwords sample_nltk) \<and> length (lit ''km'') > 2)"
  using filtered_tokens [OF sample_run, of 0] by (simp add: sample_corpus_def)

text \<open>
  C3: at every index, the stemmed entry is the stemmer mapped over the filtered entry
  and the lemmatized entry is the lemmatizer mapped over the filtered entry (not over
  the stemmed one), so the three have the same length.
\<close>

theorem stemmed_lemmatized_from_filtered:
  assumes "preprocess_text U html_text N corpus = (cleaned, tokenized, filtered, stemmed, lemmatized)"
    and "i < length corpus"
  shows "stemmed ! i = map (stem N) (filtered ! i)
       \<and> lemmatized ! i = map (lemmatize N) (filtered ! i)
       \<and> length (stemmed ! i) = length (filtered ! i)
       \<and> length (lemmatized ! i) = length (filtered ! i)"
  using preprocess_text_parts [OF assms(1)] assms(2) by simp

theorem stemmed_lemmatized_from_filtered_witness:
  "[lit ''dogs'', lit ''runn''] = map (stem sample_nltk) [lit ''dogs'', lit ''running'']
   \<and> [lit ''dog'', lit ''running''] = map (lemmatize sample_nltk) [lit ''dogs'', lit ''running'']
   \<and> [lit ''dog'', lit ''running''] \<noteq> map (lemmatize sample_nltk) [lit ''dogs'', lit ''runn'']"
proof -
  have "lit ''running'' \<noteq> lemmatize sample_nltk (lit ''runn'')"
    by code_simp
  then show ?thesis
    using stemmed_lemmatized_from_filtered [OF sample_run, of 0]
    by (simp add: sample_corpus_def)
qed

text \<open>
  C10: at every index, the filtered entry is a subsequence of the tokenized entry (the
  surviving tokens in their order), every surviving token occurs as often as in the
  tokenized entry, and the stemmed and the lemmatized token at a position come from the
  filtered token at that position.
\<close>

theorem filtered_subseq:
  assumes "preprocess_text U html_text N corpus = (cleaned, tokenized, filtered, stemmed, lemmatized)"
    and "i < length corpus"
  shows "subseq (filtered ! i) (tokenized ! i)
       \<and> (\<forall>w \<in> set (filtered ! i). count_list (filtered ! i) w = count_list (tokenized ! i) w)
       \<and> length (stemmed ! i) = length (filtered ! i)
       \<and> length (lemmatized ! i) = length (filtered ! i)
       \<and> (\<forall>j < length (filtered ! i).
             stemmed ! i ! j = stem N (filtered ! i ! j)
           \<and> lemmatized ! i ! j = lemmatize N (filtered ! i ! j))"
proof -
  note parts = preprocess_text_parts [OF assms(1)]
  let ?keep = "\<lambda>word. word \<notin> set (stopwords N) \<and> length word > 2"
  have len: "i < length tokenized" "i < length filtered"
    using parts assms(2) by simp_all
  have f: "filtered ! i = filter ?keep (tokenized ! i)"
    using parts(3) len by simp
  have "subseq (filtered ! i) (tokenized ! i)"
    unfolding f by (rule subseq_filter_left)
  moreover have "\<forall>w \<in> set (filtered ! i).
      count_list (filtered ! i) w = count_list (tokenized ! i) w"
    unfolding f by (simp add: count_list_filter)
  moreover have "length (stemmed ! i) = length (filtered ! i)"
      "length (lemmatized ! i) = length (filtered ! i)"
    using parts(4,5) len by simp_all
  moreover have "\<forall>j < length (filtered ! i).
             stemmed ! i ! j = stem N (filtered ! i ! j)
           \<and> lemmatized ! i ! j = lemmatize N (filtered ! i ! j)"
    using parts(4,5) len by simp
  ultimately show ?thesis by blast
qed

theorem filtered_subseq_witness:
  "subseq [lit ''dogs'', lit ''running'']
     [lit ''the'', lit ''dogs'', lit ''are'', lit ''running'', lit ''km'']
   \<and> [lit ''dogs'', lit ''runn''] ! 1 = stem sample_nltk ([lit ''dogs'', lit ''running''] ! 1)"
proof -
  have i: "0 < length sample_corpus"
    by (simp add: sample_corpus_def)
  note run = filtered_subseq [OF sample_run i]
  have sub: "subseq ([[lit ''dogs'', lit ''running''], []] ! 0)
      ([[lit ''the'', lit ''dogs'', lit ''are'', lit ''running'', lit ''km''], []] ! 0)"
    using run by blast
  have j: "1 < length ([[lit ''dogs'', lit ''running''], [] :: pystr list] ! 0)"
    by simp
  have "[[lit ''dogs'', lit ''runn''], []] ! 0 ! 1
      = stem sample_nltk ([[lit ''dogs'', lit ''running''], []] ! 0 ! 1)"
    using run j by blast
  with sub show ?thesis
    by simp
qed

section \<open>Cleaning\<close>

lemma sub_runs_set:
  "c \<in> set (sub_runs P b xs) \<Longrightarrow> c = 32 \<or> (c \<in> set xs \<and> \<not> P c)"
  by (induction xs arbitrary: b) (auto split: if_splits)

lemma sub_runs_length: "length (sub_runs P b xs) \<le> length xs"
  by (induction xs arbitrary: b) (auto simp: le_SucI)

lemma sub_runs_head:
  "P 32 \<Longrightarrow> sub_runs P True xs = y # ys \<Longrightarrow> \<not> P y"
  by (induction xs) (auto split: if_splits)

lemma sub_runs_not_adjacent:
  "P 32 \<Longrightarrow> \<not> adjacent P (sub_runs P b xs)"
proof (induction xs arbitrary: b)
  case Nil
  then show ?case by simp
next
  case (Cons c cs)
  note space = \<open>P 32\<close>
  show ?case
  proof (cases "P c")
    case True
    have tail: "\<not> adjacent P (sub_runs P True cs)"
      using Cons.IH space by blast
    have "\<not> adjacent P (32 # sub_runs P True cs)"
    proof (cases "sub_runs P True cs")
      case Nil
      then show ?thesis by simp
    next
      case run: (Cons y ys)
      then have "\<not> P y"
        using space sub_runs_head by blast
      then show ?thesis
        using tail run by simp
    qed
    with True tail show ?thesis by simp
  next
    case False
    then show ?thesis
      using Cons.IH [OF space, of False]
      by (cases "sub_runs P False cs") simp_all
  qed
qed

lemma sub_runs_id:
  "\<forall>c \<in> set xs. P c \<longrightarrow> c = 32 \<Longrightarrow> \<not> adjacent P xs
     \<Longrightarrow> b \<longrightarrow> xs = [] \<or> \<not> P (hd xs) \<Longrightarrow> sub_runs P b xs = xs"
proof (induction xs arbitrary: b)
  case Nil
  then show ?case by simp
next
  case (Cons c cs)
  have tail: "\<forall>c \<in> set cs. P c \<longrightarrow> c = 32" "\<not> adjacent P cs"
    using Cons.prems by (cases cs; simp)+
  show ?case
  proof (cases "P c")
    case True
    then have "\<not> b" "c = 32"
      using Cons.prems by auto
    moreover have "cs = [] \<or> \<not> P (hd cs)"
      using Cons.prems(2) True by (cases cs) auto
    then have "sub_runs P True cs = cs"
      using Cons.IH [OF tail, of True] by simp
    ultimately show ?thesis
      using True by simp
  next
    case False
    then show ?thesis
      using Cons.IH [OF tail, of False] by simp
  qed
qed

lemma adjacent_mono:
  "adjacent Q xs \<Longrightarrow> \<forall>c \<in> set xs. Q c \<longrightarrow> P c \<Longrightarrow> adjacent P xs"
  by (induction Q xs rule: adjacent.induct) auto

lemma adjacent_append_left: "adjacent P xs \<Longrightarrow> adjacent P (xs @ ys)"
  by (induction P xs rule: adjacent.induct) auto

lemma adjacent_append_right: "adjacent P ys \<Longrightarrow> adjacent P (xs @ ys)"
proof (induction xs)
  case Nil
  then show ?case by simp
next
  case (Cons x xs)
  then show ?case by (cases "xs @ ys") auto
qed

lemma strip_decomp: "\<exists>a b. t = a @ strip U t @ b"
proof -
  let ?P = "is_space U"
  let ?y = "dropWhile ?P t"
  have "rev ?y = takeWhile ?P (rev ?y) @ dropWhile ?P (rev ?y)"
    by simp
  then have "?y = rev (dropWhile ?P (rev ?y)) @ rev (takeWhile ?P (rev ?y))"
    by (metis rev_append rev_rev_ident)
  then have "t = takeWhile ?P t @ strip U t @ rev (takeWhile ?P (rev ?y))"
    unfolding strip_def by (metis takeWhile_dropWhile_id)
  then show ?thesis by blast
qed

lemma strip_set: "set (strip U t) \<subseteq> set t"
  using strip_decomp [of t U] by (metis Un_iff set_append subsetI)

lemma strip_length: "length (strip U t) \<le> length t"
  using strip_decomp [of t U] by (metis le_add1 le_add2 le_trans length_append)

lemma strip_not_adjacent: "\<not> adjacent P t \<Longrightarrow> \<not> adjacent P (strip U t)"
  using strip_decomp [of t U]
  by (metis adjacent_append_left adjacent_append_right)

lemma strip_idem: "strip U (strip U t) = strip U t"
proof -
  let ?P = "is_space U"
  let ?y = "dropWhile ?P t"
  let ?z = "strip U t"
  have z: "rev ?z = dropWhile ?P (rev ?y)"
    by (simp add: strip_def)
  have "dropWhile ?P ?z = ?z"
  proof (cases "?z = []")
    case True
    then show ?thesis by simp
  next
    case False
    have "?y = ?z @ rev (takeWhile ?P (rev ?y))"
      by (metis z rev_append rev_rev_ident takeWhile_dropWhile_id)
    with False have "hd ?z = hd ?y" "?y \<noteq> []"
      by (metis hd_append2, metis append_is_Nil_conv)
    then have "\<not> ?P (hd ?z)"
      by (metis hd_dropWhile)
    with False show ?thesis
      by (cases ?z) simp_all
  qed
  then have "strip U ?z = rev (dropWhile ?P (rev ?z))"
    by (simp add: strip_def)
  also have "\<dots> = rev (rev ?z)"
    unfolding z by simp
  finally show ?thesis by simp
qed


lemma clean_text_scrubbed: "clean_text U h d = strip U (h (scrubbed U d))"
  by (simp add: clean_text_def scrubbed_def)

lemma scrubbed_chars:
  assumes "c \<in> set (scrubbed U d)"
  shows "c = 32 \<or> (is_word U c \<and> \<not> is_decimal U c \<and> c \<notin> set punctuation
                    \<and> \<not> is_space U c \<and> c \<in> set (str_lower U d))"
proof (cases "c = 32")
  case True
  then show ?thesis by simp
next
  case False
  let ?a = "remove_punctuation (remove_numbers U (str_lower U d))"
  from assms False have "c \<in> set (sub_nonword U ?a)" "\<not> is_space U c"
    using sub_runs_set [of c "is_space U" False] by (auto simp: scrubbed_def sub_spaces_def)
  with False have "c \<in> set ?a" "is_word U c"
    using sub_runs_set [of c "\<lambda>c. \<not> is_word U c" False ?a] by (auto simp: sub_nonword_def)
  with \<open>\<not> is_space U c\<close> show ?thesis
    by (simp add: remove_punctuation_def remove_numbers_def)
qed

lemma scrubbed_not_adjacent:
  "is_space U 32 \<Longrightarrow> \<not> adjacent (is_space U) (scrubbed U d)"
  unfolding scrubbed_def sub_spaces_def by (rule sub_runs_not_adjacent)

lemma scrubbed_length: "length (scrubbed U d) \<le> length (str_lower U d)"
proof -
  have "length (scrubbed U d) \<le> length (remove_punctuation (remove_numbers U (str_lower U d)))"
    unfolding scrubbed_def sub_spaces_def sub_nonword_def
    by (meson sub_runs_length le_trans)
  also have "\<dots> \<le> length (str_lower U d)"
    unfolding remove_punctuation_def remove_numbers_def
    by (meson length_filter_le le_trans)
  finally show ?thesis .
qed

lemma not_double_space:
  assumes "is_space U 32" and "\<not> adjacent (is_space U) t"
  shows "\<not> double_space t"
  using assms adjacent_mono [of "\<lambda>c. c = 32" t "is_space U"]
  by (auto simp: double_space_def)

lemma scrubbed_words_and_spaces:
  assumes "space_char U"
  shows "words_and_spaces U (scrubbed U d)"
  unfolding words_and_spaces_def
  using assms scrubbed_chars [of _ U d] scrubbed_not_adjacent [of U d] not_double_space
  by (auto simp: space_char_def)

lemma clean_text_strip:
  assumes "space_char U" and "text_only U h"
  shows "clean_text U h d = strip U (scrubbed U d)"
  using assms scrubbed_words_and_spaces [of U d]
  by (simp add: clean_text_scrubbed text_only_def)

lemma clean_text_chars:
  assumes "space_char U" and "text_only U h" and "c \<in> set (clean_text U h d)"
  shows "c = 32 \<or> (is_word U c \<and> \<not> is_decimal U c \<and> c \<notin> set punctuation
                    \<and> \<not> is_space U c \<and> c \<in> set (str_lower U d))"
  using assms strip_set [of U "scrubbed U d"] scrubbed_chars [of c U d]
  by (auto simp: clean_text_strip)

lemma clean_text_not_adjacent:
  assumes "space_char U" and "text_only U h"
  shows "\<not> adjacent (is_space U) (clean_text U h d)"
  using assms scrubbed_not_adjacent [of U d] strip_not_adjacent
  by (simp add: clean_text_strip space_char_def)

lemma space_not_punctuation: "32 \<notin> set punctuation"
  by (simp add: punctuation_def)

text \<open>
  C5: the cleaned text holds no decimal digit (a character of the class \<open>\d\<close>), no
  character of \<open>string.punctuation\<close> and no two neighbouring spaces; each of its
  characters is a space or a word character.
\<close>

theorem clean_text_no_digits_punctuation_double_spaces:
  assumes "space_char U" and "text_only U html_text"
  shows "(\<forall>c \<in> set (clean_text U html_text d).
            \<not> is_decimal U c \<and> c \<notin> set punctuation \<and> (c = 32 \<or> is_word U c))
       \<and> \<not> double_space (clean_text U html_text d)"
proof -
  have "\<not> is_decimal U c \<and> c \<notin> set punctuation \<and> (c = 32 \<or> is_word U c)"
    if "c \<in> set (clean_text U html_text d)" for c
    using clean_text_chars [OF assms that] assms(1) space_not_punctuation
    by (auto simp: space_char_def)
  moreover have "\<not> double_space (clean_text U html_text d)"
  proof (rule not_double_space)
    show "is_space U 32"
      using assms(1) by (simp add: space_char_def)
    show "\<not> adjacent (is_space U) (clean_text U html_text d)"
      by (rule clean_text_not_adjacent [OF assms])
  qed
  ultimately show ?thesis by blast
qed

text \<open>
  C7: the cleaned text is never longer than the lower-cased document, hence never longer
  than the document when lower-casing does not lengthen it.
\<close>

theorem clean_text_length:
  assumes "space_char U" and "text_only U html_text"
  shows "length (clean_text U html_text d) \<le> length (str_lower U d)
       \<and> (length (str_lower U d) \<le> length d \<longrightarrow> length (clean_text U html_text d) \<le> length d)"
proof -
  have "length (clean_text U html_text d) \<le> length (scrubbed U d)"
    by (simp add: clean_text_strip [OF assms] strip_length)
  then have "length (clean_text U html_text d) \<le> length (str_lower U d)"
    using scrubbed_length [of U d] by (rule le_trans)
  then show ?thesis by simp
qed

text \<open>C6: cleaning a cleaned text changes nothing.\<close>

theorem clean_text_idempotent:
  assumes "space_char U" and "lower_stable U" and "text_only U html_text"
  shows "clean_text U html_text (clean_text U html_text d) = clean_text U html_text d"
proof -
  let ?t = "clean_text U html_text d"
  note chars = clean_text_chars [OF assms(1,3)]
  have space: "is_space U 32" "\<not> is_decimal U 32"
    using assms(1) by (simp_all add: space_char_def)
  have adj: "\<not> adjacent (is_space U) ?t"
    by (rule clean_text_not_adjacent [OF assms(1,3)])
  have "set ?t \<subseteq> set (str_lower U d) \<union> {32}"
    using chars by blast
  then have lower: "str_lower U ?t = ?t"
    using assms(2) by (simp add: lower_stable_def)
  have numbers: "remove_numbers U ?t = ?t"
    unfolding remove_numbers_def using chars space by (auto simp: filter_id_conv)
  have punct: "remove_punctuation ?t = ?t"
    unfolding remove_punctuation_def using chars space_not_punctuation
    by (auto simp: filter_id_conv)
  have "\<not> adjacent (\<lambda>c. \<not> is_word U c) ?t"
    using adj adjacent_mono [of "\<lambda>c. \<not> is_word U c" ?t "is_space U"] chars space by blast
  then have nonword: "sub_nonword U ?t = ?t"
    unfolding sub_nonword_def using chars by (intro sub_runs_id) auto
  have spaces: "sub_spaces U ?t = ?t"
    unfolding sub_spaces_def using chars adj by (intro sub_runs_id) auto
  have scrub: "scrubbed U ?t = ?t"
    by (simp add: scrubbed_def lower numbers punct nonword spaces)
  have "clean_text U html_text ?t = strip U (scrubbed U ?t)"
    by (rule clean_text_strip [OF assms(1,3)])
  also have "\<dots> = strip U ?t"
    by (simp only: scrub)
  also have "\<dots> = strip U (strip U (scrubbed U d))"
    by (simp only: clean_text_strip [OF assms(1,3)])
  also have "\<dots> = strip U (scrubbed U d)"
    by (rule strip_idem)
  also have "\<dots> = ?t"
    by (simp only: clean_text_strip [OF assms(1,3)])
  finally show ?thesis .
qed

section \<open>The sample character data\<close>

text \<open>
  The tabulated character data has the properties the theorems on \<open>clean_text\<close> ask
  for, and so has a parser that returns plain text as it is.
\<close>

lemma latin_simps:
  "str_lower latin = (\<lambda>text. concat (map lower_cp text))"
  "is_decimal latin = latin_decimal" "is_word latin = latin_word" "is_space latin = latin_space"
  by (simp_all add: latin_def)

lemma latin_space_char: "space_char latin"
  by (simp add: space_char_def latin_simps latin_space_def latin_decimal_def)

lemma identity_text_only: "text_only U (\<lambda>t. t)"
  by (simp add: text_only_def)

lemma lower_cp_cases:
  "lower_cp c = [c] \<or> lower_cp c = [c + 32] \<and> ((65 \<le> c \<and> c \<le> 90) \<or> (192 \<le> c \<and> c \<le> 222))
   \<or> lower_cp c = [105, 775] \<or> lower_cp c = [255]
   \<or> lower_cp c = [c + 1] \<and> even c \<and> 256 \<le> c \<and> c \<le> 375 \<and> \<not> (312 \<le> c \<and> c \<le> 329)
   \<or> lower_cp c = [c + 1] \<and> odd c \<and> ((313 \<le> c \<and> c \<le> 328) \<or> (377 \<le> c \<and> c \<le> 382))"
  unfolding lower_cp_def by simp


lemma lower_cp_lower: "97 \<le> x \<Longrightarrow> x \<le> 122 \<Longrightarrow> lower_cp x = [x]"
  by (simp add: lower_cp_def)

lemma lower_cp_latin1: "223 \<le> x \<Longrightarrow> x \<le> 255 \<Longrightarrow> lower_cp x = [x]"
  by (simp add: lower_cp_def)

lemma lower_cp_dot: "lower_cp 775 = [775]"
  by (simp add: lower_cp_def)

lemma lower_cp_odd:
  assumes "odd x" and "257 \<le> x" and "x \<le> 376" and "\<not> (313 \<le> x \<and> x \<le> 329)"
  shows "lower_cp x = [x]"
proof -
  from assms(1) have "x \<noteq> 376" "x \<noteq> 304"
    by auto
  moreover from assms(2-4) have "\<not> x \<le> 90" "\<not> x \<le> 222" "\<not> (313 \<le> x \<and> x \<le> 328)"
      "\<not> 377 \<le> x"
    by arith+
  ultimately show ?thesis
    using assms(1) by (simp add: lower_cp_def)
qed

lemma lower_cp_even:
  assumes "even x" and "314 \<le> x \<and> x \<le> 329 \<or> 378 \<le> x \<and> x \<le> 383"
  shows "lower_cp x = [x]"
proof -
  from assms(2) have "x \<noteq> 376" "x \<noteq> 304" "\<not> x \<le> 90" "\<not> x \<le> 222" "\<not> x \<le> 303"
      "\<not> x \<le> 311" "\<not> (330 \<le> x \<and> x \<le> 375)"
    by arith+
  then show ?thesis
    using assms(1) by (simp add: lower_cp_def)
qed

lemma lower_cp_stable:
  assumes "x \<in> set (lower_cp c)"
  shows "lower_cp x = [x]"
proof -
  consider "lower_cp c = [c]"
    | "lower_cp c = [c + 32]" "(65 \<le> c \<and> c \<le> 90) \<or> (192 \<le> c \<and> c \<le> 222)"
    | "lower_cp c = [105, 775]" | "lower_cp c = [255]"
    | "lower_cp c = [c + 1]" "even c" "256 \<le> c" "c \<le> 375" "\<not> (312 \<le> c \<and> c \<le> 329)"
    | "lower_cp c = [c + 1]" "odd c" "(313 \<le> c \<and> c \<le> 328) \<or> (377 \<le> c \<and> c \<le> 382)"
    using lower_cp_cases [of c] by blast
  then show ?thesis
  proof cases
    case 1
    with assms show ?thesis by simp
  next
    case 2
    with assms have "x = c + 32" by simp
    with 2(2) have "97 \<le> x \<and> x \<le> 122 \<or> 223 \<le> x \<and> x \<le> 255" by arith
    then show ?thesis
      using lower_cp_lower lower_cp_latin1 by blast
  next
    case 3
    with assms have "x = 105 \<or> x = 775" by simp
    then show ?thesis
      using lower_cp_lower [of 105] lower_cp_dot by auto
  next
    case 4
    with assms have "x = 255" by simp
    then show ?thesis
      using lower_cp_latin1 [of 255] by simp
  next
    case 5
    with assms have x: "x = c + 1" by simp
    have "odd x" using x 5(2) by simp
    moreover have "257 \<le> x" "x \<le> 376" "\<not> (313 \<le> x \<and> x \<le> 329)"
      using x 5(3-5) by arith+
    ultimately show ?thesis by (rule lower_cp_odd)
  next
    case 6
    with assms have x: "x = c + 1" by simp
    have "even x" using x 6(2) by simp
    moreover have "314 \<le> x \<and> x \<le> 329 \<or> 378 \<le> x \<and> x \<le> 383"
      using x 6(3) by arith
    ultimately show ?thesis by (rule lower_cp_even)
  qed
qed

lemma lower_cp_space: "lower_cp 32 = [32]"
  by (simp add: lower_cp_def)

lemma concat_lower_cp_id:
  "\<forall>x \<in> set t. lower_cp x = [x] \<Longrightarrow> concat (map lower_cp t) = t"
  by (induction t) simp_all

lemma latin_lower_stable: "lower_stable latin"
  unfolding lower_stable_def latin_simps
proof (intro allI impI)
  fix s t :: pystr
  assume sub: "set t \<subseteq> set (concat (map lower_cp s)) \<union> {32}"
  have "lower_cp x = [x]" if "x \<in> set t" for x
  proof (cases "x = 32")
    case True
    then show ?thesis by (simp add: lower_cp_space)
  next
    case False
    with sub that obtain c where "x \<in> set (lower_cp c)"
      by auto
    then show ?thesis by (rule lower_cp_stable)
  qed
  then show "concat (map lower_cp t) = t"
    by (simp add: concat_lower_cp_id)
qed

section \<open>Cleaning on the sample data\<close>

lemma sample_clean:
  "clean_text latin (\<lambda>t. t) (lit ''The dogs are running 12 km!'') = lit ''the dogs are running km''"
  by code_simp

text \<open>
  The document \<open>Istanbul\<close> written with a capital dotted I (U+0130), eight code points:
  \<open>lower\<close> turns U+0130 into \<open>i\<close> and U+0307, U+0307 is not a word character and
  becomes a space, and the cleaned text \<open>i stanbul\<close> has nine.
\<close>

theorem clean_text_longer_counterexample:
  "length (clean_text latin (\<lambda>t. t) (304 # lit ''stanbul'')) = 9
   \<and> length (304 # lit ''stanbul'') = 8"
  by code_simp

theorem clean_text_length_witness:
  "length (clean_text latin (\<lambda>t. t) (lit ''The dogs are running 12 km!''))
     \<le> length (lit ''The dogs are running 12 km!'')"
proof -
  have "length (str_lower latin (lit ''The dogs are running 12 km!''))
      \<le> length (lit ''The dogs are running 12 km!'')"
    by code_simp
  then show ?thesis
    using clean_text_length [OF latin_space_char identity_text_only] by blast
qed

theorem clean_text_idempotent_witness:
  "clean_text latin (\<lambda>t. t) (lit ''the dogs are running km'') = lit ''the dogs are running km''"
  using clean_text_idempotent [OF latin_space_char latin_lower_stable identity_text_only,
        of "lit ''The dogs are running 12 km!''"]
  by (simp only: sample_clean)

theorem clean_text_no_digits_punctuation_double_spaces_witness:
  "\<not> is_decimal latin 107 \<and> 107 \<notin> set punctuation
   \<and> \<not> double_space (lit ''the dogs are running km'')"
proof -
  note clean =
    clean_text_no_digits_punctuation_double_spaces [OF latin_space_char identity_text_only,
      of "lit ''The dogs are running 12 km!''", unfolded sample_clean]
  have "107 \<in> set (lit ''the dogs are running km'')"
    by (simp add: lit_def)
  with clean show ?thesis
    by blast
qed

text \<open>
  A document with a superscript two (U+00B2), which \<open>str.isdigit\<close> takes for a digit
  and which is a word character outside the class \<open>\d\<close>: it stays in the cleaned text.
\<close>

theorem clean_text_keeps_superscript_counterexample:
  "178 \<in> set (clean_text latin (\<lambda>t. t) (lit ''km'' @ [178])) \<and> latin_isdigit 178"
  by code_simp

section \<open>The pipeline and the NLTK data\<close>

text \<open>With a package missing the function raises, here for the one empty document.\<close>

theorem preprocess_text_lookup_error_counterexample:
  "preprocess_text_lookup latin (\<lambda>t. t) sample_data_no_stopwords [lit ''''] = Inl LookupError"
  by code_simp

text \<open>
  C9: with the tokenizer models, the stop-word lists and WordNet installed, the function
  raises for no corpus: it returns the five corpora that \<open>preprocess_text\<close> describes.
  The corpus of the one empty document then gives the empty cleaned text and no token at
  every later stage, the tokenizer returning no token for the empty text.
\<close>

theorem preprocess_text_lookup_installed:
  assumes "punkt D = Some tokenizer" and "stopwords_corpus D = Some words"
    and "wordnet D = Some lemmatizer"
  shows "preprocess_text_lookup U html_text D corpus =
           Inr (preprocess_text U html_text
                  \<lparr> word_tokenize = tokenizer, stopwords = words, stem = porter D,
                    lemmatize = lemmatizer \<rparr> corpus)
       \<and> (str_lower U [] = [] \<and> text_only U html_text \<and> tokenizer [] = []
            \<longrightarrow> preprocess_text_lookup U html_text D [[]] = Inr ([[]], [[]], [[]], [[]], [[]]))"
proof -
  let ?N = "\<lparr> word_tokenize = tokenizer, stopwords = words, stem = porter D,
               lemmatize = lemmatizer \<rparr>"
  have run: "preprocess_text_lookup U html_text D c = Inr (preprocess_text U html_text ?N c)"
    for c
    using assms by (simp add: preprocess_text_lookup_def preprocess_text_def Let_def)
  have "preprocess_text U html_text ?N [[]] = ([[]], [[]], [[]], [[]], [[]])"
    if lower: "str_lower U [] = []" and parser: "text_only U html_text"
      and empty: "tokenizer [] = []"
  proof -
    have "scrubbed U [] = []"
      using lower
      by (simp add: scrubbed_def remove_numbers_def remove_punctuation_def sub_nonword_def
          sub_spaces_def)
    moreover have "words_and_spaces U []"
      by (simp add: words_and_spaces_def double_space_def)
    ultimately have "clean_text U html_text [] = []"
      using parser by (simp add: clean_text_scrubbed text_only_def strip_def)
    then show ?thesis
      using empty by (simp add: preprocess_text_def)
  qed
  with run show ?thesis
    by simp
qed

theorem preprocess_text_lookup_installed_witness:
  "preprocess_text_lookup latin (\<lambda>t. t) sample_data sample_corpus =
     Inr ([lit ''the dogs are running km'', []],
          [[lit ''the'', lit ''dogs'', lit ''are'', lit ''running'', lit ''km''], []],
          [[lit ''dogs'', lit ''running''], []],
          [[lit ''dogs'', lit ''runn''], []],
          [[lit ''dog'', lit ''running''], []])
   \<and> preprocess_text_lookup latin (\<lambda>t. t) sample_data [[]] = Inr ([[]], [[]], [[]], [[]], [[]])"
proof -
  have data: "punkt sample_data = Some (split latin)"
      "stopwords_corpus sample_data = Some [lit ''the'', lit ''are'', lit ''and'', lit ''over'']"
      "wordnet sample_data = Some (drop_suffix (lit ''s''))"
      "porter sample_data = drop_suffix (lit ''ing'')"
    by (simp_all add: sample_data_def)
  note installed = preprocess_text_lookup_installed [OF data(1-3), of latin "\<lambda>t. t"]
  have "split latin [] = []"
    by (simp add: split_def)
  moreover have "str_lower latin [] = []"
    by (simp add: latin_simps)
  ultimately have "preprocess_text_lookup latin (\<lambda>t. t) sample_data [[]]
      = Inr ([[]], [[]], [[]], [[]], [[]])"
    using installed identity_text_only by blast
  moreover have "preprocess_text_lookup latin (\<lambda>t. t) sample_data sample_corpus
      = Inr (preprocess_text latin (\<lambda>t. t) sample_nltk sample_corpus)"
    using installed [of sample_corpus] by (simp add: data(4) sample_nltk_def)
  ultimately show ?thesis
    by (simp only: sample_run simp_thms)
qed

section \<open>Scraping\<close>

lemma join_head: "x \<noteq> [] \<Longrightarrow> hd (join sep (x # xs)) = hd x"
  by (cases xs) simp_all


lemma content_starts_with_hash:
  "\<exists>line rest. content U W netloc page = (35 # line) # rest"
  by (auto simp: content_def Let_def lit_def split: option.splits)

lemma scrape_webpage_fetched:
  assumes "urlparse W url = Inr (scheme, netloc)"
    and "fetch W (if scheme = [] then lit ''https://'' @ url else url) = Inr page"
  shows "scrape_webpage U W url = Inr (join [10, 10] (content U W netloc page))"
proof -
  have "content U W netloc page \<noteq> []"
    using content_starts_with_hash [of U W netloc page] by auto
  then show ?thesis
    using assms by (simp add: scrape_webpage_def Let_def)
qed

text \<open>
  C4: the page whose body holds only a \<open>nav\<close> with text and a \<open>footer\<close> with text.
  Both are removed, no block is left, and the function returns the title line alone, not
  the text \<open>No content could be extracted from this webpage.\<close>
\<close>

theorem scrape_webpage_nav_footer:
  "scrape_webpage latin (sample_web nav_footer_page) (lit ''http://example.com'')
     = Inr (lit ''# Scraped Content from example.com'')"
  by code_simp

text \<open>
  The title line is appended before the blocks are collected, so \<open>content\<close> is never
  empty and no page makes the function return the text for an empty \<open>content\<close>.
\<close>

lemma scrape_webpage_never_no_content:
  "scrape_webpage U W url \<noteq> Inr no_content"
proof (cases "urlparse W url")
  case (Inl e)
  then show ?thesis
    by (simp add: scrape_webpage_def)
next
  case (Inr parsed)
  obtain scheme netloc where parsed: "urlparse W url = Inr (scheme, netloc)"
    using Inr by (cases parsed) simp
  show ?thesis
  proof (cases "fetch W (if scheme = [] then lit ''https://'' @ url else url)")
    case (Inl r)
    with parsed show ?thesis
      by (cases r) (simp_all add: scrape_webpage_def Let_def)
  next
    case page: (Inr page)
    obtain line rest where c: "content U W netloc page = (35 # line) # rest"
      using content_starts_with_hash by blast
    have "scrape_webpage U W url = Inr (join [10, 10] ((35 # line) # rest))"
      using scrape_webpage_fetched [OF parsed page] c by simp
    moreover have "hd (join [10, 10] ((35 # line) # rest)) = 35"
      by (simp add: join_head)
    moreover have "hd no_content = 78"
      by (simp add: no_content_def lit_def)
    ultimately show ?thesis
      by auto
  qed
qed

text \<open>The two handlers: what is raised when \<open>urlparse\<close> or the request raises.\<close>

lemma scrape_webpage_raises:
  "urlparse W url = Inl e \<Longrightarrow>
     scrape_webpage U W url = Inl (Exception (lit ''Error processing the webpage: '' @ e))"
  "urlparse W url = Inr (scheme, netloc) \<Longrightarrow>
     fetch W (if scheme = [] then lit ''https://'' @ url else url) = Inl (RequestException e) \<Longrightarrow>
     scrape_webpage U W url = Inl (Exception (lit ''Failed to fetch the webpage: '' @ e))"
  "urlparse W url = Inr (scheme, netloc) \<Longrightarrow>
     fetch W (if scheme = [] then lit ''https://'' @ url else url) = Inl (OtherException e) \<Longrightarrow>
     scrape_webpage U W url = Inl (Exception (lit ''Error processing the webpage: '' @ e))"
  by (simp_all add: scrape_webpage_def Let_def)




text \<open>A page with an article: the title, the heading and the one paragraph of six words.\<close>

lemma scrape_webpage_article:
  "scrape_webpage latin (sample_web article_page) (lit ''http://example.com'')
     = Inr (join [10, 10] [lit ''# News'', lit ''# Title of the day'',
                           lit ''one two three four five six''])"
  by code_simp

end
